theory Spec2Isabelle
  imports Main
begin

section \<open>Python values and errors\<close>

text \<open>
  The objects that reach the addressing functions of \<^verbatim>\<open>blueqat/gate.py\<close>:
  \<^item> \<open>PyNone\<close> is \<^verbatim>\<open>None\<close>;
  \<^item> \<open>PyInt i\<close> is any object with an \<^verbatim>\<open>__index__\<close> method, which returns \<open>i\<close>
    (Python integers are unbounded, so \<open>i\<close> is an \<open>int\<close>);
  \<^item> \<open>PySlice start stop step\<close> is a \<^verbatim>\<open>slice\<close> object; each field holds an arbitrary
    object, \<open>PyNone\<close> when it was omitted;
  \<^item> \<open>PyTuple xs\<close> is a tuple;
  \<^item> \<open>PyOther c\<close> is an object of class \<open>c\<close> that is none of the above and has no
    \<^verbatim>\<open>__index__\<close> method (a float, a string).
\<close>

datatype pyobj =
    PyNone
  | PyInt int
  | PySlice pyobj pyobj pyobj
  | PyTuple "pyobj list"
  | PyOther string

text \<open>The exception classes; a raise is the value \<open>Inl e\<close> of the result.\<close>

datatype error =
    ValueError
  | TypeError
  | IndexError
  | AttributeError
  | NotImplementedError

text \<open>
  \<^verbatim>\<open>arg.__index__()\<close>: \<open>None\<close> stands for the \<^verbatim>\<open>AttributeError\<close> of an object that has
  no such method.
\<close>

fun py_index :: "pyobj \<Rightarrow> int option" where
  "py_index (PyInt i) = Some i"
| "py_index _ = None"

text \<open>\<^verbatim>\<open>isinstance(arg, slice)\<close> and \<^verbatim>\<open>isinstance(args, tuple)\<close>.\<close>

fun is_slice :: "pyobj \<Rightarrow> bool" where
  "is_slice (PySlice a b c) = True"
| "is_slice _ = False"

fun is_tuple :: "pyobj \<Rightarrow> bool" where
  "is_tuple (PyTuple xs) = True"
| "is_tuple _ = False"

section \<open>The built-in \<^verbatim>\<open>slice.indices\<close>\<close>

text \<open>
  One bound of a slice, as \<^verbatim>\<open>slice.indices\<close> of the Python runtime adjusts it: \<open>dflt\<close> when
  the field is \<^verbatim>\<open>None\<close>; a negative value is offset by the length and raised to \<open>lower\<close>;
  a non-negative one is lowered to \<open>upper\<close>. A field that is neither \<^verbatim>\<open>None\<close> nor an
  integer is a \<^verbatim>\<open>TypeError\<close>.
\<close>

definition slice_bound :: "pyobj \<Rightarrow> int \<Rightarrow> int \<Rightarrow> int \<Rightarrow> int \<Rightarrow> error + int" where
  "slice_bound field dflt lower upper len =
     (case field of
        PyNone \<Rightarrow> Inr dflt
      | _ \<Rightarrow>
          (case py_index field of
             None \<Rightarrow> Inl TypeError
           | Some v \<Rightarrow>
               if v < 0 then (if v + len < lower then Inr lower else Inr (v + len))
               else (if v > upper then Inr upper else Inr v)))"

text \<open>
  The step of a slice: 1 when omitted, an error when it is zero or not an integer.
\<close>

definition slice_step :: "pyobj \<Rightarrow> error + int" where
  "slice_step field =
     (case field of
        PyNone \<Rightarrow> Inr 1
      | _ \<Rightarrow>
          (case py_index field of
             None \<Rightarrow> Inl TypeError
           | Some s \<Rightarrow> if s = 0 then Inl ValueError else Inr s))"

text \<open>
  \<^verbatim>\<open>slice(start, stop, step).indices(length)\<close>: a negative length is a \<^verbatim>\<open>ValueError\<close>; then the
  step, the start and the stop are computed in this order.
\<close>

definition slice_indices :: "pyobj \<Rightarrow> pyobj \<Rightarrow> pyobj \<Rightarrow> int \<Rightarrow> error + (int \<times> int \<times> int)" where
  "slice_indices start stop step len =
     (if len < 0 then Inl ValueError
      else
        (case slice_step step of
           Inl e \<Rightarrow> Inl e
         | Inr s \<Rightarrow>
             (let lower = (if s < 0 then - 1 else 0);
                  upper = (if s < 0 then len - 1 else len)
              in (case slice_bound start (if s < 0 then upper else lower) lower upper len of
                    Inl e \<Rightarrow> Inl e
                  | Inr a \<Rightarrow>
                      (case slice_bound stop (if s < 0 then lower else upper) lower upper len of
                         Inl e \<Rightarrow> Inl e
                       | Inr b \<Rightarrow> Inr (a, b, s))))))"

section \<open>Resolving qubit specifiers\<close>

text \<open>
  The generators \<^verbatim>\<open>slicing_singlevalue\<close> and \<^verbatim>\<open>slicing\<close> are modelled by what a caller
  that consumes them to the end obtains (as \<^verbatim>\<open>list(...)\<close> in \<^verbatim>\<open>qubit_pairs\<close> does): the
  list of the yielded values, or the exception that interrupts the iteration.

  The two \<^verbatim>\<open>while\<close> loops of \<^verbatim>\<open>slicing_singlevalue\<close>. The test on the sign of the step,
  which the source makes once before the loop, is part of the loop condition here: the
  step does not change in the loop, and a zero step never reaches it
  (\<^verbatim>\<open>slice.indices\<close> raises).
\<close>

function while_lt :: "int \<Rightarrow> int \<Rightarrow> int \<Rightarrow> int list" where
  "while_lt i stop step =
     (if 0 < step \<and> i < stop then i # while_lt (i + step) stop step else [])"
  by pat_completeness auto
termination
  by (relation "measure (\<lambda>(i, stop, step). nat (stop - i))") auto

function while_gt :: "int \<Rightarrow> int \<Rightarrow> int \<Rightarrow> int list" where
  "while_gt i stop step =
     (if step < 0 \<and> i > stop then i # while_gt (i + step) stop step else [])"
  by pat_completeness auto
termination
  by (relation "measure (\<lambda>(i, stop, step). nat (i - stop))") auto

declare while_lt.simps [simp del]
declare while_gt.simps [simp del]

definition slicing_singlevalue :: "pyobj \<Rightarrow> int \<Rightarrow> error + int list" where
  "slicing_singlevalue arg len =
     (case arg of
        PySlice a b c \<Rightarrow>
          (case slice_indices a b c len of
             Inl e \<Rightarrow> Inl e
           | Inr (start, stop, step) \<Rightarrow>
               Inr (if step > 0 then while_lt start stop step
                    else while_gt start stop step))
      | _ \<Rightarrow>
          (case py_index arg of
             None \<Rightarrow> Inl TypeError
           | Some i \<Rightarrow> Inr [if i < 0 then i + len else i]))"

text \<open>The loop of \<^verbatim>\<open>slicing\<close> over the elements of a tuple.\<close>

fun slicing_tuple :: "pyobj list \<Rightarrow> int \<Rightarrow> error + int list" where
  "slicing_tuple [] len = Inr []"
| "slicing_tuple (arg # args) len =
     (case slicing_singlevalue arg len of
        Inl e \<Rightarrow> Inl e
      | Inr ys \<Rightarrow>
          (case slicing_tuple args len of
             Inl e \<Rightarrow> Inl e
           | Inr zs \<Rightarrow> Inr (ys @ zs)))"

definition slicing :: "pyobj \<Rightarrow> int \<Rightarrow> error + int list" where
  "slicing args len =
     (case args of
        PyTuple xs \<Rightarrow> slicing_tuple xs len
      | _ \<Rightarrow> slicing_singlevalue args len)"

section \<open>Control and target pairs\<close>

text \<open>
  \<^verbatim>\<open>qubit_pairs\<close>: the specifier must be a tuple of length 2; both sides are resolved
  (an exception of \<^verbatim>\<open>slicing\<close> propagates), the lengths are compared, every pair is
  checked, and the pairs are returned in order.
\<close>

definition qubit_pairs :: "pyobj \<Rightarrow> int \<Rightarrow> error + (int \<times> int) list" where
  "qubit_pairs args len =
     (case args of
        PyTuple xs \<Rightarrow>
          (if length xs \<noteq> 2 then Inl ValueError
           else
             (case slicing (xs ! 0) len of
                Inl e \<Rightarrow> Inl e
              | Inr controls \<Rightarrow>
                  (case slicing (xs ! 1) len of
                     Inl e \<Rightarrow> Inl e
                   | Inr tgts \<Rightarrow>
                       if length controls \<noteq> length tgts then Inl ValueError
                       else if list_ex (\<lambda>(c, z). c = z) (zip controls tgts)
                         then Inl ValueError
                       else Inr (zip controls tgts))))
      | _ \<Rightarrow> Inl ValueError)"

section \<open>The largest index of a specifier\<close>

text \<open>
  A call of \<^verbatim>\<open>__index__\<close> outside any \<^verbatim>\<open>try\<close>: the \<^verbatim>\<open>AttributeError\<close> propagates.
\<close>

definition index_or_raise :: "pyobj \<Rightarrow> error + int" where
  "index_or_raise x = (case py_index x of None \<Rightarrow> Inl AttributeError | Some i \<Rightarrow> Inr i)"

definition maximum_idx_single :: "pyobj \<Rightarrow> error + int" where
  "maximum_idx_single idx =
     (case idx of
        PySlice a b c \<Rightarrow>
          (case (case a of PyNone \<Rightarrow> Inr (- 1) | _ \<Rightarrow> index_or_raise a) of
             Inl e \<Rightarrow> Inl e
           | Inr start \<Rightarrow>
               (case (case b of PyNone \<Rightarrow> Inr 0 | _ \<Rightarrow> index_or_raise b) of
                  Inl e \<Rightarrow> Inl e
                | Inr stop \<Rightarrow> Inr (max start (stop - 1))))
      | _ \<Rightarrow> index_or_raise idx)"

text \<open>
  A generator expression consumed to its end: the values in order, or the first
  exception.
\<close>

fun collect :: "('a \<Rightarrow> error + int) \<Rightarrow> 'a list \<Rightarrow> error + int list" where
  "collect f [] = Inr []"
| "collect f (x # xs) =
     (case f x of
        Inl e \<Rightarrow> Inl e
      | Inr y \<Rightarrow> (case collect f xs of Inl e \<Rightarrow> Inl e | Inr ys \<Rightarrow> Inr (y # ys)))"

text \<open>
  The built-in \<^verbatim>\<open>max\<close> over the values of an iterable, with its optional \<^verbatim>\<open>default\<close>:
  on an empty iterable it returns the default, and raises \<^verbatim>\<open>ValueError\<close> without one.
\<close>

fun py_max :: "int list \<Rightarrow> int option \<Rightarrow> error + int" where
  "py_max [] None = Inl ValueError"
| "py_max [] (Some d) = Inr d"
| "py_max (x # xs) _ = Inr (fold max xs x)"

definition get_maximum_index :: "pyobj \<Rightarrow> error + int" where
  "get_maximum_index indices =
     (case indices of
        PyTuple xs \<Rightarrow>
          (case collect maximum_idx_single xs of
             Inl e \<Rightarrow> Inl e
           | Inr ms \<Rightarrow> py_max ms None)
      | _ \<Rightarrow> maximum_idx_single indices)"

section \<open>The gate classes\<close>

datatype gate_class =
    Gate | OneQubitGate | TwoQubitGate
  | IGate | XGate | YGate | ZGate | HGate
  | CZGate | CXGate
  | RXGate | RYGate | RZGate
  | TGate | SGate | Measurement

text \<open>
  An instance: its class and the attributes that the constructors set. \<open>theta\<close> is set
  by the rotation gates only.
\<close>

record gate =
  cls :: gate_class
  kwargs :: "(string \<times> pyobj) list"
  targets :: pyobj
  theta :: "pyobj option"

text \<open>The method resolution order of each class, from the class statements.\<close>

fun mro :: "gate_class \<Rightarrow> gate_class list" where
  "mro Gate = [Gate]"
| "mro OneQubitGate = [OneQubitGate, Gate]"
| "mro TwoQubitGate = [TwoQubitGate, Gate]"
| "mro CZGate = [CZGate, TwoQubitGate, Gate]"
| "mro CXGate = [CXGate, TwoQubitGate, Gate]"
| "mro c = [c, OneQubitGate, Gate]"

text \<open>Attribute lookup: the first class of the order whose body defines the attribute.\<close>

fun lookup_attr :: "(gate_class \<Rightarrow> 'a option) \<Rightarrow> gate_class list \<Rightarrow> 'a option" where
  "lookup_attr own [] = None"
| "lookup_attr own (c # cs) = (case own c of Some a \<Rightarrow> Some a | None \<Rightarrow> lookup_attr own cs)"

text \<open>
  The \<^verbatim>\<open>lowername\<close> that a class body assigns: \<open>None\<close> when the body has no assignment,
  \<open>Some None\<close> for the \<^verbatim>\<open>lowername = None\<close> of \<^verbatim>\<open>Gate\<close>.
\<close>

fun own_lowername :: "gate_class \<Rightarrow> string option option" where
  "own_lowername Gate = Some None"
| "own_lowername OneQubitGate = None"
| "own_lowername TwoQubitGate = None"
| "own_lowername IGate = Some (Some ''i'')"
| "own_lowername XGate = Some (Some ''x'')"
| "own_lowername YGate = Some (Some ''y'')"
| "own_lowername ZGate = Some (Some ''z'')"
| "own_lowername HGate = Some (Some ''h'')"
| "own_lowername CZGate = Some (Some ''cz'')"
| "own_lowername CXGate = Some (Some ''cx'')"
| "own_lowername RXGate = Some (Some ''rx'')"
| "own_lowername RYGate = Some (Some ''ry'')"
| "own_lowername RZGate = Some (Some ''rz'')"
| "own_lowername TGate = Some (Some ''t'')"
| "own_lowername SGate = Some (Some ''s'')"
| "own_lowername Measurement = Some (Some ''measure'')"

text \<open>\<^verbatim>\<open>self.lowername\<close> on an instance of class \<open>c\<close>.\<close>

definition lowername :: "gate_class \<Rightarrow> string option" where
  "lowername c = (case lookup_attr own_lowername (mro c) of Some v \<Rightarrow> v | None \<Rightarrow> None)"

text \<open>\<^verbatim>\<open>Gate.__init__(self, targets, **kwargs)\<close>, on a new instance of class \<open>c\<close>.\<close>

definition Gate_init :: "gate_class \<Rightarrow> pyobj \<Rightarrow> (string \<times> pyobj) list \<Rightarrow> error + gate" where
  "Gate_init c tgts kw =
     (if lowername c = None then Inl ValueError
      else Inr \<lparr>cls = c, kwargs = kw, targets = tgts, theta = None\<rparr>)"

text \<open>
  The \<^verbatim>\<open>__init__(self, targets, theta, **kwargs)\<close> of \<^verbatim>\<open>RXGate\<close>, \<^verbatim>\<open>RYGate\<close> and
  \<^verbatim>\<open>RZGate\<close>: the base constructor, then the angle.
\<close>

definition Rotation_init ::
    "gate_class \<Rightarrow> pyobj \<Rightarrow> pyobj \<Rightarrow> (string \<times> pyobj) list \<Rightarrow> error + gate" where
  "Rotation_init c tgts th kw =
     (case Gate_init c tgts kw of
        Inl e \<Rightarrow> Inl e
      | Inr g \<Rightarrow> Inr (g\<lparr>theta := Some th\<rparr>))"

text \<open>The classes whose body defines an \<^verbatim>\<open>__init__\<close> with the parameter \<^verbatim>\<open>theta\<close>.\<close>

fun takes_theta :: "gate_class \<Rightarrow> bool" where
  "takes_theta RXGate = True"
| "takes_theta RYGate = True"
| "takes_theta RZGate = True"
| "takes_theta _ = False"

text \<open>
  The call \<^verbatim>\<open>c(targets, **kwargs)\<close> (\<open>th = None\<close>) or \<^verbatim>\<open>c(targets, theta, **kwargs)\<close>
  (\<open>th = Some theta\<close>, a second positional argument). Binding the arguments to the
  parameters of the \<^verbatim>\<open>__init__\<close> that the class resolves to comes first: a missing or a
  surplus positional argument is a \<^verbatim>\<open>TypeError\<close>, raised before the body runs.
\<close>

definition construct ::
    "gate_class \<Rightarrow> pyobj \<Rightarrow> pyobj option \<Rightarrow> (string \<times> pyobj) list \<Rightarrow> error + gate" where
  "construct c tgts th kw =
     (if takes_theta c then
        (case th of None \<Rightarrow> Inl TypeError | Some t \<Rightarrow> Rotation_init c tgts t kw)
      else
        (case th of None \<Rightarrow> Gate_init c tgts kw | Some t \<Rightarrow> Inl TypeError))"

text \<open>
  The \<^verbatim>\<open>fallback\<close> that a class body defines: \<^verbatim>\<open>Gate\<close> raises, \<^verbatim>\<open>IGate\<close> returns the
  empty list, no other class has one.
\<close>

fun own_fallback :: "gate_class \<Rightarrow> (gate \<Rightarrow> error + gate list) option" where
  "own_fallback Gate = Some (\<lambda>self. Inl NotImplementedError)"
| "own_fallback IGate = Some (\<lambda>self. Inr [])"
| "own_fallback _ = None"

text \<open>\<^verbatim>\<open>self.fallback()\<close>: the method found along the resolution order of the class.\<close>

definition fallback :: "gate \<Rightarrow> error + gate list" where
  "fallback self =
     (case lookup_attr own_fallback (mro (cls self)) of
        Some m \<Rightarrow> m self
      | None \<Rightarrow> Inl AttributeError)"

section \<open>The number of qubits of a gate list\<close>

definition find_n_qubits :: "gate list \<Rightarrow> error + int" where
  "find_n_qubits gates =
     (case collect (\<lambda>g. get_maximum_index (targets g)) gates of
        Inl e \<Rightarrow> Inl e
      | Inr ms \<Rightarrow>
          (case py_max ms (Some (- 1)) of
             Inl e \<Rightarrow> Inl e
           | Inr m \<Rightarrow> Inr (m + 1)))"

section \<open>Ranges as the specification words them\<close>

text \<open>
  The specification describes the resolution of a range \<open>(start, stop, step)\<close> against
  \<open>n\<close> qubits in its own words; the definitions of this section follow these words,
  to be compared with \<open>slicing_singlevalue\<close>. A bound or a step is \<open>None\<close> when omitted.
\<close>

fun field_of :: "int option \<Rightarrow> pyobj" where
  "field_of None = PyNone"
| "field_of (Some i) = PyInt i"

text \<open>The step defaults to 1.\<close>

definition spec_step :: "int option \<Rightarrow> int" where
  "spec_step step = (case step of None \<Rightarrow> 1 | Some s \<Rightarrow> s)"

text \<open>
  A given bound: a negative value is offset by \<open>n\<close>; the result is clamped into
  \<open>[0, n]\<close>, or into \<open>[-1, n-1]\<close> for a descending range.
\<close>

definition spec_clamp :: "int \<Rightarrow> int \<Rightarrow> int \<Rightarrow> int" where
  "spec_clamp s n v =
     (let w = (if v < 0 then v + n else v)
      in if s > 0 then max 0 (min n w) else max (- 1) (min (n - 1) w))"

text \<open>An omitted start is 0 if the step is positive, else \<open>n - 1\<close>.\<close>

definition spec_start :: "int option \<Rightarrow> int \<Rightarrow> int \<Rightarrow> int" where
  "spec_start start s n =
     (case start of None \<Rightarrow> (if s > 0 then 0 else n - 1) | Some v \<Rightarrow> spec_clamp s n v)"

text \<open>An omitted stop is \<open>n\<close> if the step is positive, else \<open>-1\<close>.\<close>

definition spec_stop :: "int option \<Rightarrow> int \<Rightarrow> int \<Rightarrow> int" where
  "spec_stop stop s n =
     (case stop of None \<Rightarrow> (if s > 0 then n else - 1) | Some v \<Rightarrow> spec_clamp s n v)"

text \<open>
  The arithmetic progression from \<open>a\<close> toward \<open>b\<close> exclusive, by steps of \<open>s\<close>: the
  number of its terms, and the terms \<open>a\<close>, \<open>a + s\<close>, \<open>a + 2 s\<close>, ...
\<close>

definition spec_count :: "int \<Rightarrow> int \<Rightarrow> int \<Rightarrow> nat" where
  "spec_count a b s =
     (if s > 0 then nat ((b - a + s - 1) div s) else nat ((a - b - s - 1) div (- s)))"

definition spec_progression :: "int \<Rightarrow> int \<Rightarrow> int \<Rightarrow> int list" where
  "spec_progression a b s = map (\<lambda>k. a + int k * s) [0..<spec_count a b s]"

definition spec_range :: "int option \<Rightarrow> int option \<Rightarrow> int option \<Rightarrow> int \<Rightarrow> error + int list" where
  "spec_range start stop step n =
     (let s = spec_step step
      in if s = 0 then Inl ValueError
         else Inr (spec_progression (spec_start start s n) (spec_stop stop s n) s))"

section \<open>Shapes of specifiers\<close>

text \<open>
  The specifiers that the statements on the largest index speak of. A bound of a range
  is an integer or omitted; an element is a single index or a range with such bounds; a
  flat specifier is an element or a non-empty tuple of elements.
\<close>

fun int_or_none :: "pyobj \<Rightarrow> bool" where
  "int_or_none PyNone = True"
| "int_or_none (PyInt i) = True"
| "int_or_none _ = False"

fun index_or_range :: "pyobj \<Rightarrow> bool" where
  "index_or_range (PyInt i) = True"
| "index_or_range (PySlice a b c) = (int_or_none a \<and> int_or_none b)"
| "index_or_range _ = False"

fun flat_spec :: "pyobj \<Rightarrow> bool" where
  "flat_spec (PyTuple xs) = (xs \<noteq> [] \<and> list_all index_or_range xs)"
| "flat_spec x = index_or_range x"

section \<open>Ranges: the loops compute the arithmetic progression\<close>

lemma spec_count_pos_step:
  assumes "0 < s" "a < b"
  shows "spec_count a b s = Suc (spec_count (a + s) b s)"
proof -
  define x where "x = b - (a + s) + s - 1"
  have e: "b - a + s - 1 = x + s" by (simp add: x_def)
  have nn: "0 \<le> x div s"
    using assms by (simp add: x_def pos_imp_zdiv_nonneg_iff)
  have "(x + s) div s = x div s + 1"
    using assms by (subst div_add_self2) simp_all
  then show ?thesis
    using assms nn unfolding spec_count_def e by (simp add: x_def nat_add_distrib)
qed

lemma spec_count_pos_done:
  assumes "0 < s" "\<not> a < b"
  shows "spec_count a b s = 0"
proof -
  have "(b - a + s - 1) div s \<le> (s - 1) div s"
    using assms by (intro zdiv_mono1) simp_all
  also have "(s - 1) div s = 0"
    using assms by (simp add: div_pos_pos_trivial)
  finally have "(b - a + s - 1) div s \<le> 0" .
  then show ?thesis using assms by (simp add: spec_count_def)
qed

lemma spec_count_neg_step:
  assumes "s < 0" "b < a"
  shows "spec_count a b s = Suc (spec_count (a + s) b s)"
proof -
  define x where "x = a + s - b - s - 1"
  have e: "a - b - s - 1 = x + (- s)" by (simp add: x_def)
  have nn: "0 \<le> x div (- s)"
    using assms by (simp add: x_def pos_imp_zdiv_nonneg_iff)
  have "(x + (- s)) div (- s) = x div (- s) + 1"
    using assms by (subst div_add_self2) simp_all
  then show ?thesis
    using assms nn unfolding spec_count_def e by (simp add: x_def nat_add_distrib)
qed

lemma spec_count_neg_done:
  assumes "s < 0" "\<not> b < a"
  shows "spec_count a b s = 0"
proof -
  have "(a - b - s - 1) div (- s) \<le> (- s - 1) div (- s)"
    using assms by (intro zdiv_mono1) simp_all
  also have "(- s - 1) div (- s) = 0"
    using assms by (simp add: div_pos_pos_trivial)
  finally have "(a - b - s - 1) div (- s) \<le> 0" .
  then show ?thesis using assms by (simp add: spec_count_def)
qed

lemma progression_step:
  assumes "spec_count a b s = Suc (spec_count (a + s) b s)"
  shows "spec_progression a b s = a # spec_progression (a + s) b s"
proof -
  have "spec_progression a b s =
        map (\<lambda>k. a + int k * s) [0..<Suc (spec_count (a + s) b s)]"
    by (simp only: spec_progression_def assms)
  also have "\<dots> = a # map (\<lambda>k. a + int (Suc k) * s) [0..<spec_count (a + s) b s]"
    by (simp only: map_upt_Suc) simp
  also have "\<dots> = a # spec_progression (a + s) b s"
    by (simp add: spec_progression_def algebra_simps)
  finally show ?thesis .
qed

lemma while_lt_progression: "0 < s \<Longrightarrow> while_lt a b s = spec_progression a b s"
proof (induction a b s rule: while_lt.induct)
  case (1 i stop step)
  show ?case
  proof (cases "i < stop")
    case True
    then show ?thesis
      using 1 by (subst while_lt.simps) (simp add: progression_step spec_count_pos_step)
  next
    case False
    then show ?thesis
      using 1 by (subst while_lt.simps) (simp add: spec_progression_def spec_count_pos_done)
  qed
qed

lemma while_gt_progression: "s < 0 \<Longrightarrow> while_gt a b s = spec_progression a b s"
proof (induction a b s rule: while_gt.induct)
  case (1 i stop step)
  show ?case
  proof (cases "stop < i")
    case True
    then show ?thesis
      using 1 by (subst while_gt.simps) (simp add: progression_step spec_count_neg_step)
  next
    case False
    then show ?thesis
      using 1 by (subst while_gt.simps) (simp add: spec_progression_def spec_count_neg_done)
  qed
qed

lemma slice_bound_spec:
  assumes "0 \<le> n" "s \<noteq> 0"
  shows "slice_bound (PyInt v) d (if s < 0 then - 1 else 0) (if s < 0 then n - 1 else n) n
         = Inr (spec_clamp s n v)"
  using assms by (auto simp: slice_bound_def spec_clamp_def Let_def)

lemma slice_indices_spec:
  assumes "0 \<le> n"
  shows "slice_indices (field_of start) (field_of stop) (field_of step) n =
         (if spec_step step = 0 then Inl ValueError
          else Inr (spec_start start (spec_step step) n, spec_stop stop (spec_step step) n,
                    spec_step step))"
proof (cases "spec_step step = 0")
  case True
  then show ?thesis using assms
    by (cases step) (simp_all add: slice_indices_def slice_step_def spec_step_def)
next
  case False
  then have st: "slice_step (field_of step) = Inr (spec_step step)"
    by (cases step) (simp_all add: slice_step_def spec_step_def)
  have a: "slice_bound (field_of start) (if spec_step step < 0 then (if spec_step step < 0 then n - 1 else n) else (if spec_step step < 0 then - 1 else 0))
       (if spec_step step < 0 then - 1 else 0) (if spec_step step < 0 then n - 1 else n) n
       = Inr (spec_start start (spec_step step) n)"
    using False assms
    by (cases start) (auto simp: slice_bound_spec spec_start_def, auto simp: slice_bound_def)
  have b: "slice_bound (field_of stop) (if spec_step step < 0 then (if spec_step step < 0 then - 1 else 0) else (if spec_step step < 0 then n - 1 else n))
       (if spec_step step < 0 then - 1 else 0) (if spec_step step < 0 then n - 1 else n) n
       = Inr (spec_stop stop (spec_step step) n)"
    using False assms
    by (cases stop) (auto simp: slice_bound_spec spec_stop_def, auto simp: slice_bound_def)
  show ?thesis using False assms st a b
    by (simp add: slice_indices_def Let_def)
qed

lemma slicing_range_spec:
  assumes "0 \<le> n"
  shows "slicing_singlevalue (PySlice (field_of start) (field_of stop) (field_of step)) n
         = spec_range start stop step n"
  using assms
  by (simp add: slicing_singlevalue_def slice_indices_spec spec_range_def Let_def
      while_lt_progression while_gt_progression)

lemma while_lt_before_stop: "0 < s \<Longrightarrow> x \<in> set (while_lt a b s) \<Longrightarrow> a \<le> x \<and> x < b"
proof (induction a b s rule: while_lt.induct)
  case (1 i stop step)
  show ?case
  proof (cases "i < stop")
    case True
    with 1 show ?thesis
      by (subst (asm) (2) while_lt.simps) (auto split: if_splits)
  next
    case False
    with 1 show ?thesis
      by (subst (asm) (2) while_lt.simps) simp
  qed
qed

lemma while_gt_before_stop: "s < 0 \<Longrightarrow> x \<in> set (while_gt a b s) \<Longrightarrow> b < x \<and> x \<le> a"
proof (induction a b s rule: while_gt.induct)
  case (1 i stop step)
  show ?case
  proof (cases "stop < i")
    case True
    with 1 show ?thesis
      by (subst (asm) (2) while_gt.simps) (auto split: if_splits)
  next
    case False
    with 1 show ?thesis
      by (subst (asm) (2) while_gt.simps) simp
  qed
qed

lemma while_lt_reaches_stop: "0 < s \<Longrightarrow> b \<le> a + int (length (while_lt a b s)) * s"
proof (induction a b s rule: while_lt.induct)
  case (1 i stop step)
  show ?case
  proof (cases "i < stop")
    case True
    with 1 show ?thesis
      by (subst while_lt.simps) (simp add: algebra_simps)
  next
    case False
    with 1 show ?thesis
      by (subst while_lt.simps) simp
  qed
qed

lemma while_gt_reaches_stop: "s < 0 \<Longrightarrow> a + int (length (while_gt a b s)) * s \<le> b"
proof (induction a b s rule: while_gt.induct)
  case (1 i stop step)
  show ?case
  proof (cases "stop < i")
    case True
    with 1 show ?thesis
      by (subst while_gt.simps) (simp add: algebra_simps)
  next
    case False
    with 1 show ?thesis
      by (subst while_gt.simps) simp
  qed
qed

lemma spec_progression_nth:
  "k < length (spec_progression a b s) \<Longrightarrow> spec_progression a b s ! k = a + int k * s"
  by (simp add: spec_progression_def)

lemma spec_progression_exclusive:
  assumes "s \<noteq> 0" and "x \<in> set (spec_progression a b s)"
  shows "if 0 < s then a \<le> x \<and> x < b else b < x \<and> x \<le> a"
proof (cases "0 < s")
  case True
  with assms(2) while_lt_before_stop [of s x a b] show ?thesis
    by (simp add: while_lt_progression)
next
  case False
  with assms have "s < 0" by simp
  with assms(2) while_gt_before_stop [of s x a b] show ?thesis
    by (simp add: while_gt_progression)
qed

lemma spec_progression_maximal:
  assumes "s \<noteq> 0"
  shows "if 0 < s then b \<le> a + int (length (spec_progression a b s)) * s
         else a + int (length (spec_progression a b s)) * s \<le> b"
proof (cases "0 < s")
  case True
  with while_lt_reaches_stop [of s b a] show ?thesis
    by (simp add: while_lt_progression)
next
  case False
  with assms have "s < 0" by simp
  with while_gt_reaches_stop [of s a b] show ?thesis
    by (simp add: while_gt_progression)
qed

lemma spec_bounds_in_range:
  assumes "0 \<le> n" "s \<noteq> 0"
  shows "if 0 < s then 0 \<le> spec_start a s n \<and> spec_stop b s n \<le> n
         else spec_start a s n \<le> n - 1 \<and> - 1 \<le> spec_stop b s n"
  using assms
  by (cases a; cases b) (auto simp: spec_start_def spec_stop_def spec_clamp_def Let_def)

section \<open>Helper lemmas on generators, tuples and maxima\<close>

lemma collect_map:
  "map f xs = map Inr ms \<Longrightarrow> collect f xs = Inr ms"
  by (induction xs arbitrary: ms) auto

lemma py_max_Max: "ms \<noteq> [] \<Longrightarrow> py_max ms d = Inr (Max (set ms))"
proof (cases ms)
  case Nil
  assume "ms \<noteq> []"
  with Nil show ?thesis by simp
next
  case (Cons a list)
  then show ?thesis using Max.set_eq_fold [of a list] by simp
qed

lemma slicing_tuple_append:
  "slicing_tuple pre n = Inr ys \<Longrightarrow>
   slicing_tuple (pre @ rest) n =
     (case slicing_tuple rest n of Inl e \<Rightarrow> Inl e | Inr zs \<Rightarrow> Inr (ys @ zs))"
  by (induction pre arbitrary: ys) (auto split: sum.splits)

lemma slicing_int [simp]: "slicing (PyInt i) n = Inr [if i < 0 then i + n else i]"
  by (simp add: slicing_def slicing_singlevalue_def)

lemma qubit_pairs_resolved:
  assumes "slicing c n = Inr cs" and "slicing t n = Inr ts"
  shows "qubit_pairs (PyTuple [c, t]) n =
         (if length cs \<noteq> length ts then Inl ValueError
          else if \<exists>k<length cs. cs ! k = ts ! k then Inl ValueError
          else Inr (zip cs ts))"
proof -
  have "list_ex (\<lambda>(c, z). c = z) (zip cs ts) = (\<exists>k<length cs. cs ! k = ts ! k)"
    if "length cs = length ts"
    using that by (auto simp: list_ex_iff set_zip)
  then show ?thesis using assms by (simp add: qubit_pairs_def)
qed

lemma qubit_pairs_shape:
  assumes "\<not> is_tuple args \<or> (\<exists>xs. args = PyTuple xs \<and> length xs \<noteq> 2)"
  shows "qubit_pairs args n = Inl ValueError"
  using assms by (cases args) (auto simp: qubit_pairs_def)

section \<open>Single indices\<close>

text \<open>
  Claim C9. Resolving a single integer index is total: for every integer \<open>i\<close> and every
  qubit count \<open>n\<close>, both \<^verbatim>\<open>slicing_singlevalue\<close> and \<^verbatim>\<open>slicing\<close> yield exactly the
  one-element sequence \<open>[i]\<close> when \<open>i \<ge> 0\<close> and \<open>[i + n]\<close> when \<open>i < 0\<close>, and no exception
  is raised, whether or not the yielded value lies in \<open>[0, n)\<close>: there is no bounds check.
\<close>

theorem single_index_total:
  "slicing_singlevalue (PyInt i) n = Inr [if i < 0 then i + n else i] \<and>
   slicing (PyInt i) n = Inr [if i < 0 then i + n else i]"
  by (simp add: slicing_def slicing_singlevalue_def)

text \<open>
  At \<open>i = 5\<close>, \<open>n = 3\<close> the value yielded is 5, not below \<open>n\<close>; at \<open>i = -7\<close>, \<open>n = 3\<close> it is
  \<open>-4\<close>, still negative.
\<close>

theorem single_index_total_witness:
  "slicing (PyInt 5) 3 = Inr [5] \<and> \<not> (5::int) < 3 \<and>
   slicing (PyInt (- 7)) 3 = Inr [- 4] \<and> (- 4 :: int) < 0"
  using single_index_total [of 5 3] single_index_total [of "- 7" 3] by simp

text \<open>
  Claim C1 says that the resolution of a single index fails with \<^verbatim>\<open>IndexError\<close> when the
  index, after the wraparound, is still negative or is at least \<open>n\<close>. The code has no such
  check: index 5 against 3 qubits resolves to \<open>[5]\<close>.
\<close>

theorem single_index_index_error_counterexample:
  "\<not> (5::int) < 3 \<and> slicing_singlevalue (PyInt 5) 3 = Inr [5] \<and>
   slicing_singlevalue (PyInt 5) 3 \<noteq> Inl IndexError"
  by (simp add: slicing_singlevalue_def)

text \<open>
  Claim C1, amended. Resolving a single integer index \<open>i\<close> against qubit count \<open>n\<close> first
  replaces a negative \<open>i\<close> with \<open>i + n\<close> and yields exactly one value, \<open>j\<close>. For every \<open>i\<close>
  with \<open>j\<close> in \<open>[0, n)\<close> it succeeds and yields that index; when \<open>j\<close> is still negative or
  is at least \<open>n\<close> it yields \<open>j\<close> all the same. It never fails with \<^verbatim>\<open>IndexError\<close>.
\<close>

theorem single_index_wraps_unchecked:
  assumes "j = (if i < 0 then i + n else i)"
  shows "(0 \<le> j \<and> j < n \<longrightarrow> slicing_singlevalue (PyInt i) n = Inr [j]) \<and>
         (j < 0 \<or> n \<le> j \<longrightarrow> slicing_singlevalue (PyInt i) n = Inr [j]) \<and>
         slicing_singlevalue (PyInt i) n \<noteq> Inl IndexError"
  using assms by (simp add: slicing_singlevalue_def)

theorem single_index_wraps_unchecked_witness:
  "slicing_singlevalue (PyInt (- 1)) 3 = Inr [2] \<and>
   slicing_singlevalue (PyInt 5) 3 = Inr [5] \<and>
   slicing_singlevalue (PyInt (- 7)) 3 = Inr [- 4]"
  using single_index_wraps_unchecked [of 2 "- 1" 3]
    single_index_wraps_unchecked [of 5 5 3]
    single_index_wraps_unchecked [of "- 4" "- 7" 3]
  by simp

text \<open>
  Claim C8. Resolving an element that is neither an integer (an object with
  \<^verbatim>\<open>__index__\<close>) nor a range fails with \<^verbatim>\<open>TypeError\<close>, for every qubit count \<open>n\<close>: in
  \<^verbatim>\<open>slicing_singlevalue\<close>, in \<^verbatim>\<open>slicing\<close> when the element is the whole specifier, and in
  \<^verbatim>\<open>slicing\<close> of a tuple that holds the element after elements that resolve.
\<close>

theorem non_index_element_type_error:
  assumes "py_index x = None" and "\<not> is_slice x"
  shows "slicing_singlevalue x n = Inl TypeError \<and>
         (\<not> is_tuple x \<longrightarrow> slicing x n = Inl TypeError) \<and>
         (\<forall>pre post ys. slicing (PyTuple pre) n = Inr ys \<longrightarrow>
            slicing (PyTuple (pre @ x # post)) n = Inl TypeError)"
proof -
  have sv: "slicing_singlevalue x n = Inl TypeError"
    using assms by (cases x) (simp_all add: slicing_singlevalue_def)
  have "slicing x n = Inl TypeError" if "\<not> is_tuple x"
    using that sv by (cases x) (simp_all add: slicing_def)
  moreover have "slicing (PyTuple (pre @ x # post)) n = Inl TypeError"
    if "slicing (PyTuple pre) n = Inr ys" for pre post ys
    using that sv by (simp add: slicing_def slicing_tuple_append)
  ultimately show ?thesis using sv by blast
qed

theorem non_index_element_type_error_witness:
  "slicing_singlevalue (PyOther ''float'') 3 = Inl TypeError \<and>
   slicing (PyOther ''float'') 3 = Inl TypeError \<and>
   slicing (PyTuple [PyInt 0, PyOther ''float'', PyInt 1]) 3 = Inl TypeError \<and>
   slicing (PyTuple [PyInt 0, PyTuple [PyInt 1]]) 3 = Inl TypeError"
proof -
  have a: "py_index (PyOther ''float'') = None" "\<not> is_slice (PyOther ''float'')" by simp_all
  have b: "py_index (PyTuple [PyInt 1]) = None" "\<not> is_slice (PyTuple [PyInt 1])" by simp_all
  have p: "slicing (PyTuple [PyInt 0]) 3 = Inr [0]"
    by (simp add: slicing_def slicing_singlevalue_def)
  have na: "\<not> is_tuple (PyOther ''float'')" by simp
  from non_index_element_type_error [OF a, of 3] na p
  have "slicing_singlevalue (PyOther ''float'') 3 = Inl TypeError"
       "slicing (PyOther ''float'') 3 = Inl TypeError"
       "slicing (PyTuple ([PyInt 0] @ PyOther ''float'' # [PyInt 1])) 3 = Inl TypeError"
    by blast+
  moreover from non_index_element_type_error [OF b, of 3] p
  have "slicing (PyTuple ([PyInt 0] @ PyTuple [PyInt 1] # [])) 3 = Inl TypeError"
    by blast
  ultimately show ?thesis by simp
qed

section \<open>Pairs\<close>

text \<open>
  Claim C3. \<^verbatim>\<open>qubit_pairs\<close> fails with \<^verbatim>\<open>ValueError\<close> whenever the specifier is not a
  tuple of exactly two elements. For a 2-tuple whose sides resolve to the control sequence
  \<open>cs\<close> and the target sequence \<open>ts\<close>, it fails with \<^verbatim>\<open>ValueError\<close> when the two lengths
  differ, and when some pair at the same position has control equal to target; otherwise
  it returns the pairs matched by position, \<open>cs ! k\<close> with \<open>ts ! k\<close>, in order.
\<close>

theorem qubit_pairs_contract:
  "(\<not> is_tuple args \<or> (\<exists>xs. args = PyTuple xs \<and> length xs \<noteq> 2)
      \<longrightarrow> qubit_pairs args n = Inl ValueError) \<and>
   (\<forall>c t cs ts. args = PyTuple [c, t] \<and> slicing c n = Inr cs \<and> slicing t n = Inr ts \<longrightarrow>
      (length cs \<noteq> length ts \<longrightarrow> qubit_pairs args n = Inl ValueError) \<and>
      ((\<exists>k<length cs. k < length ts \<and> cs ! k = ts ! k) \<longrightarrow> qubit_pairs args n = Inl ValueError) \<and>
      (length cs = length ts \<and> (\<forall>k<length cs. cs ! k \<noteq> ts ! k) \<longrightarrow>
         qubit_pairs args n = Inr (zip cs ts)))"
  using qubit_pairs_shape [of args n] by (auto simp: qubit_pairs_resolved)

theorem qubit_pairs_contract_witness:
  "qubit_pairs (PyInt 0) 4 = Inl ValueError \<and>
   qubit_pairs (PyTuple [PyInt 0, PyInt 1, PyInt 2]) 4 = Inl ValueError \<and>
   qubit_pairs (PyTuple [PyTuple [PyInt 0, PyInt 1], PyInt 2]) 4 = Inl ValueError \<and>
   qubit_pairs (PyTuple [PyInt 1, PyInt (- 3)]) 4 = Inl ValueError \<and>
   qubit_pairs (PyTuple [PyTuple [PyInt 0, PyInt 1], PyTuple [PyInt 3, PyInt 2]]) 4
     = Inr [(0, 3), (1, 2)]"
proof -
  have r1: "slicing (PyInt 1) 4 = Inr [1]" "slicing (PyInt (- 3)) 4 = Inr [1]"
    "slicing (PyInt 2) 4 = Inr [2]"
    by simp_all
  have r2: "slicing (PyTuple [PyInt 0, PyInt 1]) 4 = Inr [0, 1]"
    "slicing (PyTuple [PyInt 3, PyInt 2]) 4 = Inr [3, 2]"
    by (simp_all add: slicing_def slicing_singlevalue_def)
  have "qubit_pairs (PyInt 0) 4 = Inl ValueError"
    using qubit_pairs_contract [of "PyInt 0" 4] by simp
  moreover have "qubit_pairs (PyTuple [PyInt 0, PyInt 1, PyInt 2]) 4 = Inl ValueError"
    using qubit_pairs_contract [of "PyTuple [PyInt 0, PyInt 1, PyInt 2]" 4] by simp
  moreover have "qubit_pairs (PyTuple [PyTuple [PyInt 0, PyInt 1], PyInt 2]) 4 = Inl ValueError"
    using qubit_pairs_contract [of "PyTuple [PyTuple [PyInt 0, PyInt 1], PyInt 2]" 4] r1 r2
    by simp
  moreover have "qubit_pairs (PyTuple [PyInt 1, PyInt (- 3)]) 4 = Inl ValueError"
    using qubit_pairs_contract [of "PyTuple [PyInt 1, PyInt (- 3)]" 4] r1
    by simp
  moreover have "qubit_pairs (PyTuple [PyTuple [PyInt 0, PyInt 1], PyTuple [PyInt 3, PyInt 2]]) 4
     = Inr [(0, 3), (1, 2)]"
    using qubit_pairs_contract
      [of "PyTuple [PyTuple [PyInt 0, PyInt 1], PyTuple [PyInt 3, PyInt 2]]" 4] r2
    by (simp add: less_Suc_eq)
  ultimately show ?thesis by blast
qed

section \<open>Ranges\<close>

text \<open>
  Claim C4. Resolving a range \<open>(start, stop, step)\<close> against a qubit count \<open>n \<ge> 0\<close> gives
  what the specification words: the step defaults to 1 and a zero step is an error; an
  omitted start or stop takes the default for the sign of the step; a negative bound is
  offset by \<open>n\<close> and clamped; the result is the arithmetic progression from the start
  toward the stop, exclusive. Every non-zero step gives a result, and a stop that is not
  beyond the start gives the empty sequence, not an error. The result, when there is one,
  has the start plus \<open>k\<close> steps at position \<open>k\<close>; all its values are indices in \<open>[0, n)\<close>
  strictly before the stop; and one more step would reach or pass the stop.
\<close>

theorem range_resolution:
  assumes "0 \<le> n"
  shows "slicing_singlevalue (PySlice (field_of start) (field_of stop) (field_of step)) n
           = spec_range start stop step n \<and>
         (step = Some 0 \<longrightarrow>
            slicing_singlevalue (PySlice (field_of start) (field_of stop) (field_of step)) n
              = Inl ValueError) \<and>
         (step \<noteq> Some 0 \<longrightarrow>
            (\<exists>xs. slicing_singlevalue (PySlice (field_of start) (field_of stop) (field_of step)) n
              = Inr xs)) \<and>
         (0 < spec_step step \<and>
          spec_stop stop (spec_step step) n \<le> spec_start start (spec_step step) n \<longrightarrow>
            slicing_singlevalue (PySlice (field_of start) (field_of stop) (field_of step)) n
              = Inr []) \<and>
         (\<forall>xs. slicing_singlevalue (PySlice (field_of start) (field_of stop) (field_of step)) n
              = Inr xs \<longrightarrow>
            (\<forall>k<length xs. xs ! k = spec_start start (spec_step step) n + int k * spec_step step) \<and>
            (\<forall>x\<in>set xs. 0 \<le> x \<and> x < n \<and>
               (if 0 < spec_step step then x < spec_stop stop (spec_step step) n
                else spec_stop stop (spec_step step) n < x)) \<and>
            (if 0 < spec_step step
             then spec_stop stop (spec_step step) n
                    \<le> spec_start start (spec_step step) n + int (length xs) * spec_step step
             else spec_start start (spec_step step) n + int (length xs) * spec_step step
                    \<le> spec_stop stop (spec_step step) n))"
proof -
  let ?r = "slicing_singlevalue (PySlice (field_of start) (field_of stop) (field_of step)) n"
  let ?s = "spec_step step"
  let ?a = "spec_start start ?s n"
  let ?b = "spec_stop stop ?s n"
  have eq: "?r = spec_range start stop step n"
    using assms by (rule slicing_range_spec)
  have zero: "?r = Inl ValueError" if "step = Some 0"
    using that eq by (simp add: spec_range_def spec_step_def)
  have ok: "\<exists>xs. ?r = Inr xs" if "step \<noteq> Some 0"
    using that eq by (cases step) (simp_all add: spec_range_def spec_step_def)
  have empty: "?r = Inr []" if "0 < ?s \<and> ?b \<le> ?a"
    using that
    by (simp add: eq spec_range_def Let_def spec_progression_def spec_count_pos_done)
  have shape:
    "(\<forall>k<length xs. xs ! k = ?a + int k * ?s) \<and>
     (\<forall>x\<in>set xs. 0 \<le> x \<and> x < n \<and> (if 0 < ?s then x < ?b else ?b < x)) \<and>
     (if 0 < ?s then ?b \<le> ?a + int (length xs) * ?s else ?a + int (length xs) * ?s \<le> ?b)"
    if r: "?r = Inr xs" for xs
  proof -
    from r eq have nz: "?s \<noteq> 0" and xs: "xs = spec_progression ?a ?b ?s"
      by (auto simp: spec_range_def Let_def split: if_splits)
    have nth: "\<forall>k<length xs. xs ! k = ?a + int k * ?s"
      unfolding xs by (simp add: spec_progression_nth)
    have mem: "0 \<le> x \<and> x < n \<and> (if 0 < ?s then x < ?b else ?b < x)" if "x \<in> set xs" for x
      using spec_progression_exclusive [OF nz, of x ?a ?b] that
        spec_bounds_in_range [OF assms nz, of start stop]
      unfolding xs by (auto split: if_splits)
    have "if 0 < ?s then ?b \<le> ?a + int (length xs) * ?s else ?a + int (length xs) * ?s \<le> ?b"
      unfolding xs by (rule spec_progression_maximal [OF nz])
    with nth mem show ?thesis by blast
  qed
  show ?thesis using eq zero ok empty shape by blast
qed

theorem range_resolution_witness:
  "slicing_singlevalue (PySlice PyNone PyNone (PyInt (- 2))) 7 = Inr [6, 4, 2, 0] \<and>
   slicing_singlevalue (PySlice (PyInt (- 3)) (PyInt 100) (PyInt 2)) 7 = Inr [4, 6] \<and>
   slicing_singlevalue (PySlice (PyInt 1) PyNone PyNone) 4 = Inr [1, 2, 3] \<and>
   slicing_singlevalue (PySlice (PyInt 5) (PyInt 2) PyNone) 7 = Inr [] \<and>
   slicing_singlevalue (PySlice (PyInt 0) (PyInt 3) (PyInt 0)) 7 = Inl ValueError"
proof -
  have e1: "spec_range None None (Some (- 2)) 7 = Inr [6, 4, 2, 0]" by code_simp
  have e2: "spec_range (Some (- 3)) (Some 100) (Some 2) 7 = Inr [4, 6]" by code_simp
  have e3: "spec_range (Some 1) None None 4 = Inr [1, 2, 3]" by code_simp
  have e5: "spec_range (Some 0) (Some 3) (Some 0) 7 = Inl ValueError" by code_simp
  have e4: "0 < spec_step None \<and> spec_stop (Some 2) (spec_step None) 7 \<le> spec_start (Some 5) (spec_step None) 7"
    by (simp add: spec_step_def spec_stop_def spec_start_def spec_clamp_def)
  have n: "(0::int) \<le> 7" "(0::int) \<le> 4" by simp_all
  have "slicing_singlevalue (PySlice PyNone PyNone (PyInt (- 2))) 7 = Inr [6, 4, 2, 0]"
    using range_resolution [OF n(1), of None None "Some (- 2)"] e1 by simp
  moreover
  have "slicing_singlevalue (PySlice (PyInt (- 3)) (PyInt 100) (PyInt 2)) 7 = Inr [4, 6]"
    using range_resolution [OF n(1), of "Some (- 3)" "Some 100" "Some 2"] e2 by simp
  moreover
  have "slicing_singlevalue (PySlice (PyInt 1) PyNone PyNone) 4 = Inr [1, 2, 3]"
    using range_resolution [OF n(2), of "Some 1" None None] e3 by simp
  moreover
  have "slicing_singlevalue (PySlice (PyInt 5) (PyInt 2) PyNone) 7 = Inr []"
  proof -
    from range_resolution [OF n(1), of "Some 5" "Some 2" None] e4
    have "slicing_singlevalue
            (PySlice (field_of (Some 5)) (field_of (Some 2)) (field_of None)) 7 = Inr []"
      by blast
    then show ?thesis by simp
  qed
  moreover
  have "slicing_singlevalue (PySlice (PyInt 0) (PyInt 3) (PyInt 0)) 7 = Inl ValueError"
    using range_resolution [OF n(1), of "Some 0" "Some 3" "Some 0"] e5 by simp
  ultimately show ?thesis by blast
qed

section \<open>The largest index and the number of qubits\<close>

lemma maximum_idx_single_int: "maximum_idx_single (PyInt i) = Inr i"
  by (simp add: maximum_idx_single_def index_or_raise_def)

lemma maximum_idx_single_slice:
  "maximum_idx_single (PySlice (field_of a) (field_of b) c) =
     Inr (max (case a of None \<Rightarrow> - 1 | Some v \<Rightarrow> v) ((case b of None \<Rightarrow> 0 | Some v \<Rightarrow> v) - 1))"
  by (cases a; cases b) (simp_all add: maximum_idx_single_def index_or_raise_def)

lemma find_n_qubits_collected:
  assumes "map (\<lambda>g. get_maximum_index (targets g)) gs = map Inr ms"
  shows "find_n_qubits gs = Inr (if gs = [] then 0 else Max (set ms) + 1)"
proof (cases "gs = []")
  case True
  with assms show ?thesis by (simp add: find_n_qubits_def)
next
  case False
  with assms have "ms \<noteq> []" by auto
  with False assms show ?thesis
    by (simp add: find_n_qubits_def collect_map py_max_Max)
qed

lemma int_or_none_field: "int_or_none a \<Longrightarrow> \<exists>v. a = field_of v"
proof (cases a)
  case PyNone
  then have "a = field_of None" by simp
  then show ?thesis ..
next
  case (PyInt i)
  then have "a = field_of (Some i)" by simp
  then show ?thesis ..
qed simp_all

lemma index_or_range_maximum:
  assumes "index_or_range x"
  shows "\<exists>m. get_maximum_index x = Inr m"
proof (cases x)
  case (PyInt i)
  then show ?thesis by (simp add: get_maximum_index_def maximum_idx_single_int)
next
  case (PySlice a b c)
  with assms obtain u v where "a = field_of u" "b = field_of v"
    using int_or_none_field by fastforce
  with PySlice show ?thesis
    using maximum_idx_single_slice [of u v c] by (simp add: get_maximum_index_def)
qed (use assms in simp_all)

lemma index_or_range_single:
  "index_or_range x \<Longrightarrow> maximum_idx_single x = get_maximum_index x"
  by (cases x) (simp_all add: get_maximum_index_def)

lemma all_results:
  "(\<forall>x\<in>set xs. \<exists>m. f x = Inr m) \<Longrightarrow> \<exists>ms. map f xs = map Inr ms"
proof (induction xs)
  case Nil
  then show ?case by simp
next
  case (Cons x xs)
  then obtain m ms where "f x = Inr m" "map f xs = map Inr ms" by auto
  then have "map f (x # xs) = map Inr (m # ms)" by simp
  then show ?case by blast
qed

lemma tuple_maximum:
  assumes "xs \<noteq> []" and "\<forall>x\<in>set xs. index_or_range x"
  shows "\<exists>ms. map get_maximum_index xs = map Inr ms \<and>
              get_maximum_index (PyTuple xs) = Inr (Max (set ms))"
proof -
  from assms(2) obtain ms where ms: "map get_maximum_index xs = map Inr ms"
    using all_results [of xs get_maximum_index] index_or_range_maximum by blast
  from assms(2) have "map maximum_idx_single xs = map get_maximum_index xs"
    by (simp add: index_or_range_single)
  with ms have c: "collect maximum_idx_single xs = Inr ms"
    by (simp add: collect_map)
  from ms assms(1) have "ms \<noteq> []" by auto
  with c have "get_maximum_index (PyTuple xs) = Inr (Max (set ms))"
    by (simp add: get_maximum_index_def py_max_Max)
  with ms show ?thesis by blast
qed

lemma flat_spec_maximum:
  assumes "flat_spec s"
  shows "\<exists>m. get_maximum_index s = Inr m"
proof (cases s)
  case (PyTuple xs)
  with assms have "xs \<noteq> []" "\<forall>x\<in>set xs. index_or_range x"
    by (simp_all add: list_all_iff)
  from tuple_maximum [OF this] PyTuple show ?thesis by blast
qed (use assms index_or_range_maximum in simp_all)

text \<open>
  Claim C2 fails on the code in these places. A negative single index contributes its
  raw value, not \<open>-1\<close>: the index \<open>-3\<close> contributes \<open>-3\<close>. A range does not use its
  explicitly given bounds only: with the start \<open>-5\<close> and no stop it contributes \<open>-1\<close>,
  the \<open>stop - 1\<close> of the stop that counts as 0; and a range with the start 2 and no stop
  contributes 2, not \<open>-1\<close>. An empty tuple raises \<^verbatim>\<open>ValueError\<close>. A tuple with an element
  that is itself a tuple raises \<^verbatim>\<open>AttributeError\<close>, in \<^verbatim>\<open>get_maximum_index\<close> and in
  \<^verbatim>\<open>find_n_qubits\<close>, although \<^verbatim>\<open>qubit_pairs\<close> resolves the same specifier to pairs.
\<close>

theorem maximum_index_counterexample:
  "get_maximum_index (PyInt (- 3)) = Inr (- 3) \<and> (- 3 :: int) \<noteq> - 1 \<and>
   get_maximum_index (PySlice (PyInt (- 5)) PyNone PyNone) = Inr (- 1) \<and> (- 1 :: int) \<noteq> - 5 \<and>
   get_maximum_index (PySlice (PyInt 2) PyNone PyNone) = Inr 2 \<and> (2 :: int) \<noteq> - 1 \<and>
   get_maximum_index (PyTuple []) = Inl ValueError \<and>
   qubit_pairs (PyTuple [PyTuple [PyInt 0, PyInt 1], PyTuple [PyInt 3, PyInt 2]]) 4
     = Inr [(0, 3), (1, 2)] \<and>
   get_maximum_index (PyTuple [PyTuple [PyInt 0, PyInt 1], PyTuple [PyInt 3, PyInt 2]])
     = Inl AttributeError \<and>
   find_n_qubits [\<lparr>cls = CXGate, kwargs = [],
                   targets = PyTuple [PyTuple [PyInt 0, PyInt 1], PyTuple [PyInt 3, PyInt 2]],
                   theta = None\<rparr>] = Inl AttributeError"
  by (simp add: get_maximum_index_def maximum_idx_single_def index_or_raise_def
      find_n_qubits_def qubit_pairs_def slicing_def slicing_singlevalue_def)

text \<open>
  Claim C2, amended. The largest index of a single index is its raw literal, also when
  it is negative. That of a range with integer or omitted bounds is
  \<open>max(start, stop - 1)\<close>, where an omitted start counts as \<open>-1\<close> and an omitted stop as
  0, so that a range with neither bound contributes \<open>-1\<close>; the step plays no part. That
  of a non-empty tuple whose elements are single indices or such ranges is the maximum of
  the largest indices of its elements. \<^verbatim>\<open>find_n_qubits\<close> of a gate list in which the
  specifier of every gate is a single index, such a range, or a non-empty tuple of these
  is 1 plus the maximum of the largest indices of the specifiers of all its gates, and 0
  when the list is empty; it is 0 as well when every specifier is a range with neither
  bound.
\<close>

theorem maximum_index_contract:
  "get_maximum_index (PyInt i) = Inr i \<and>
   get_maximum_index (PySlice (field_of a) (field_of b) c) =
     Inr (max (case a of None \<Rightarrow> - 1 | Some v \<Rightarrow> v)
              ((case b of None \<Rightarrow> 0 | Some v \<Rightarrow> v) - 1)) \<and>
   get_maximum_index (PySlice PyNone PyNone c) = Inr (- 1) \<and>
   (xs \<noteq> [] \<and> (\<forall>x\<in>set xs. index_or_range x) \<longrightarrow>
      (\<exists>ms. map get_maximum_index xs = map Inr ms \<and>
            get_maximum_index (PyTuple xs) = Inr (Max (set ms)))) \<and>
   ((\<forall>g\<in>set gs. flat_spec (targets g)) \<longrightarrow>
      (\<exists>ns. map (\<lambda>g. get_maximum_index (targets g)) gs = map Inr ns \<and>
            find_n_qubits gs = Inr (if gs = [] then 0 else Max (set ns) + 1))) \<and>
   find_n_qubits [] = Inr 0 \<and>
   ((\<forall>g\<in>set gs. \<exists>d. targets g = PySlice PyNone PyNone d) \<longrightarrow> find_n_qubits gs = Inr 0)"
proof -
  have single: "get_maximum_index (PyInt i) = Inr i"
    by (simp add: get_maximum_index_def maximum_idx_single_int)
  have range: "get_maximum_index (PySlice (field_of a) (field_of b) c) =
     Inr (max (case a of None \<Rightarrow> - 1 | Some v \<Rightarrow> v)
              ((case b of None \<Rightarrow> 0 | Some v \<Rightarrow> v) - 1))"
    using maximum_idx_single_slice [of a b c] by (simp add: get_maximum_index_def)
  have opn: "get_maximum_index (PySlice PyNone PyNone d) = Inr (- 1)" for d
    using maximum_idx_single_slice [of None None d] by (simp add: get_maximum_index_def)
  have tuple: "\<exists>ms. map get_maximum_index xs = map Inr ms \<and>
                    get_maximum_index (PyTuple xs) = Inr (Max (set ms))"
    if "xs \<noteq> [] \<and> (\<forall>x\<in>set xs. index_or_range x)"
    using that tuple_maximum by blast
  have gates: "\<exists>ns. map (\<lambda>g. get_maximum_index (targets g)) gs = map Inr ns \<and>
                    find_n_qubits gs = Inr (if gs = [] then 0 else Max (set ns) + 1)"
    if h: "\<forall>g\<in>set gs. flat_spec (targets g)"
  proof -
    from h obtain ns where ns: "map (\<lambda>g. get_maximum_index (targets g)) gs = map Inr ns"
      using all_results [of gs "\<lambda>g. get_maximum_index (targets g)"] flat_spec_maximum
      by blast
    from find_n_qubits_collected [OF ns] ns show ?thesis by blast
  qed
  have none: "find_n_qubits [] = Inr 0"
    by (simp add: find_n_qubits_def)
  have all_open: "find_n_qubits gs = Inr 0"
    if h: "\<forall>g\<in>set gs. \<exists>d. targets g = PySlice PyNone PyNone d"
  proof (cases "gs = []")
    case True
    then show ?thesis by (simp add: find_n_qubits_def)
  next
    case False
    from h have "map (\<lambda>g. get_maximum_index (targets g)) gs = map Inr (map (\<lambda>g. - 1) gs)"
      using opn by auto
    from find_n_qubits_collected [OF this] False show ?thesis by simp
  qed
  show ?thesis using single range opn [of c] tuple gates none all_open by blast
qed

theorem maximum_index_contract_witness:
  "get_maximum_index (PyInt 2) = Inr 2 \<and>
   get_maximum_index (PyInt (- 3)) = Inr (- 3) \<and>
   get_maximum_index (PySlice (PyInt 1) PyNone (PyInt 2)) = Inr 1 \<and>
   get_maximum_index (PySlice (PyInt 1) (PyInt 5) PyNone) = Inr 4 \<and>
   get_maximum_index (PySlice (PyInt (- 5)) PyNone PyNone) = Inr (- 1) \<and>
   get_maximum_index (PyTuple [PyInt 1, PySlice (PyInt 3) PyNone PyNone]) = Inr 3 \<and>
   find_n_qubits [\<lparr>cls = XGate, kwargs = [], targets = PyInt 0, theta = None\<rparr>,
                  \<lparr>cls = CXGate, kwargs = [], targets = PyTuple [PyInt 0, PyInt 2],
                   theta = None\<rparr>] = Inr 3 \<and>
   find_n_qubits [\<lparr>cls = HGate, kwargs = [], targets = PySlice PyNone PyNone PyNone,
                   theta = None\<rparr>] = Inr 0"
proof -
  let ?xs = "[PyInt 1, PySlice (PyInt 3) PyNone PyNone]"
  let ?gs = "[\<lparr>cls = XGate, kwargs = [], targets = PyInt 0, theta = None\<rparr>,
              \<lparr>cls = CXGate, kwargs = [], targets = PyTuple [PyInt 0, PyInt 2],
               theta = None\<rparr>]"
  let ?hs = "[\<lparr>cls = HGate, kwargs = [], targets = PySlice PyNone PyNone PyNone,
               theta = None\<rparr>]"
  have inj: "ms = ns" if "map Inr ms = (map Inr ns :: (error + int) list)" for ms ns
    using that by (simp add: inj_map_eq_map)
  have h1: "?xs \<noteq> [] \<and> (\<forall>x\<in>set ?xs. index_or_range x)"
    by simp
  have v1: "map get_maximum_index ?xs = map Inr [1, 3]"
    by (simp add: get_maximum_index_def maximum_idx_single_def index_or_raise_def)
  have h2: "\<forall>g\<in>set ?gs. flat_spec (targets g)"
    by simp
  have v2: "map (\<lambda>g. get_maximum_index (targets g)) ?gs = map Inr [0, 2]"
    by (simp add: get_maximum_index_def maximum_idx_single_def index_or_raise_def)
  have h3: "\<forall>g\<in>set ?hs. \<exists>d. targets g = PySlice PyNone PyNone d"
    by simp
  note t1 = maximum_index_contract [of 2 "Some 1" None "PyInt 2" ?xs ?gs]
  note t2 = maximum_index_contract [of "- 3" "Some 1" "Some 5" PyNone ?xs ?hs]
  note t3 = maximum_index_contract [of 0 "Some (- 5)" None PyNone ?xs ?hs]
  have "get_maximum_index (PyInt 2) = Inr 2"
    "get_maximum_index (PySlice (PyInt 1) PyNone (PyInt 2)) = Inr 1"
    using t1 by simp_all
  moreover
  have "get_maximum_index (PyTuple ?xs) = Inr 3"
  proof -
    from t1 h1 obtain ms where
      "map get_maximum_index ?xs = map Inr ms"
      "get_maximum_index (PyTuple ?xs) = Inr (Max (set ms))"
      by blast
    moreover from this(1) v1 have "ms = [1, 3]" by (simp add: inj)
    ultimately show ?thesis by simp
  qed
  moreover
  have "find_n_qubits ?gs = Inr 3"
  proof -
    from t1 h2 obtain ns where
      "map (\<lambda>g. get_maximum_index (targets g)) ?gs = map Inr ns"
      "find_n_qubits ?gs = Inr (if ?gs = [] then 0 else Max (set ns) + 1)"
      by blast
    moreover from this(1) v2 have "ns = [0, 2]" by (simp add: inj)
    ultimately show ?thesis by simp
  qed
  moreover
  have "get_maximum_index (PyInt (- 3)) = Inr (- 3)"
    "get_maximum_index (PySlice (PyInt 1) (PyInt 5) PyNone) = Inr 4"
    using t2 by simp_all
  moreover
  have "find_n_qubits ?hs = Inr 0"
    using t2 h3 by blast
  moreover
  have "get_maximum_index (PySlice (PyInt (- 5)) PyNone PyNone) = Inr (- 1)"
    using t3 by simp
  ultimately show ?thesis by blast
qed

text \<open>
  Claim C10. \<^verbatim>\<open>find_n_qubits\<close> can return a negative value. For a non-empty gate list in
  which the specifier of every gate is a single negative integer, the largest index is the
  largest of the raw literals (not \<open>-1\<close>), and the result is that plus 1: never positive,
  and negative unless some literal is \<open>-1\<close>. A list whose only gate addresses \<open>-3\<close>
  gives \<open>-2\<close>.
\<close>

theorem find_n_qubits_negative:
  assumes "gs \<noteq> []" and "map targets gs = map PyInt js" and "\<forall>j\<in>set js. j < 0"
  shows "find_n_qubits gs = Inr (Max (set js) + 1) \<and> Max (set js) + 1 \<le> 0 \<and>
         (Max (set js) \<noteq> - 1 \<longrightarrow> Max (set js) + 1 < 0)"
proof -
  have "map (\<lambda>g. get_maximum_index (targets g)) gs = map get_maximum_index (map targets gs)"
    by simp
  also have "\<dots> = map Inr js"
    unfolding assms(2) by (simp add: get_maximum_index_def maximum_idx_single_int)
  finally have r: "find_n_qubits gs = Inr (Max (set js) + 1)"
    using find_n_qubits_collected assms(1) by simp
  from assms(1,2) have "js \<noteq> []" by auto
  then have "Max (set js) \<in> set js" by simp
  with assms(3) have "Max (set js) < 0" by blast
  with r show ?thesis by simp
qed

theorem find_n_qubits_negative_witness:
  "\<exists>g. construct XGate (PyInt (- 3)) None [] = Inr g \<and>
       find_n_qubits [g] = Inr (- 2) \<and> (- 2 :: int) < 0"
proof -
  let ?g = "\<lparr>cls = XGate, kwargs = [], targets = PyInt (- 3), theta = None\<rparr>"
  have c: "construct XGate (PyInt (- 3)) None [] = Inr ?g"
    by (simp add: construct_def Gate_init_def lowername_def)
  have h: "[?g] \<noteq> []" "map targets [?g] = map PyInt [- 3]" "\<forall>j\<in>set [- 3 :: int]. j < 0"
    by simp_all
  from find_n_qubits_negative [OF h] have "find_n_qubits [?g] = Inr (- 2)" by simp
  with c show ?thesis by simp
qed

section \<open>Construction and decomposition of gates\<close>

text \<open>
  Claim C5. The decomposition of a gate whose class does not define one of its own is
  the \<^verbatim>\<open>fallback\<close> of \<^verbatim>\<open>Gate\<close>, which raises \<^verbatim>\<open>NotImplementedError\<close>. Among the classes of
  the module these are all the classes other than \<^verbatim>\<open>IGate\<close>.
\<close>

theorem fallback_not_implemented:
  "(cls g \<noteq> IGate \<longrightarrow> fallback g = Inl NotImplementedError) \<and>
   ((cls g = Gate \<or> own_fallback (cls g) = None) = (cls g \<noteq> IGate))"
  by (cases "cls g") (simp_all add: fallback_def)

theorem fallback_not_implemented_witness:
  "fallback \<lparr>cls = XGate, kwargs = [], targets = PyInt 0, theta = None\<rparr>
     = Inl NotImplementedError \<and>
   fallback \<lparr>cls = CXGate, kwargs = [], targets = PyTuple [PyInt 0, PyInt 1], theta = None\<rparr>
     = Inl NotImplementedError \<and>
   fallback \<lparr>cls = RZGate, kwargs = [], targets = PyInt 0, theta = Some (PyOther ''float'')\<rparr>
     = Inl NotImplementedError"
  using fallback_not_implemented [of "\<lparr>cls = XGate, kwargs = [], targets = PyInt 0, theta = None\<rparr>"]
    fallback_not_implemented
      [of "\<lparr>cls = CXGate, kwargs = [], targets = PyTuple [PyInt 0, PyInt 1], theta = None\<rparr>"]
    fallback_not_implemented
      [of "\<lparr>cls = RZGate, kwargs = [], targets = PyInt 0, theta = Some (PyOther ''float'')\<rparr>"]
  by simp

text \<open>
  Claim C6. Constructing a gate of a class whose \<^verbatim>\<open>lowername\<close> is left undefined fails,
  whatever the targets: with \<^verbatim>\<open>ValueError\<close> from \<^verbatim>\<open>Gate.__init__\<close>, or earlier when the
  call passes an angle that the constructor does not take. These classes are \<^verbatim>\<open>Gate\<close>,
  \<^verbatim>\<open>OneQubitGate\<close> and \<^verbatim>\<open>TwoQubitGate\<close>. Constructing a gate of a class that defines its
  \<^verbatim>\<open>lowername\<close>, with the arguments its constructor takes, succeeds and stores the given
  targets.
\<close>

theorem construct_requires_lowername:
  "(lowername c = None \<longrightarrow>
      construct c t None kw = Inl ValueError \<and> (\<forall>th. \<exists>e. construct c t th kw = Inl e)) \<and>
   (lowername c \<noteq> None \<and> (th = None) = (\<not> takes_theta c) \<longrightarrow>
      (\<exists>g. construct c t th kw = Inr g \<and> targets g = t \<and> cls g = c \<and> kwargs g = kw \<and>
           theta g = th)) \<and>
   (lowername c = None) = (c \<in> {Gate, OneQubitGate, TwoQubitGate})"
  by (cases c; cases th)
    (auto simp: construct_def Gate_init_def Rotation_init_def lowername_def
      split: option.splits)

theorem construct_requires_lowername_witness:
  "construct Gate (PyInt 0) None [] = Inl ValueError \<and>
   construct OneQubitGate (PySlice PyNone PyNone PyNone) None [] = Inl ValueError \<and>
   (\<exists>g. construct XGate (PyInt 0) None [] = Inr g \<and> targets g = PyInt 0) \<and>
   (\<exists>g. construct RZGate (PyInt 1) (Some (PyOther ''float'')) [] = Inr g \<and> targets g = PyInt 1)"
proof -
  have l: "lowername Gate = None" "lowername OneQubitGate = None"
    "lowername XGate \<noteq> None \<and> ((None :: pyobj option) = None) = (\<not> takes_theta XGate)"
    "lowername RZGate \<noteq> None \<and> (Some (PyOther ''float'') = None) = (\<not> takes_theta RZGate)"
    by (simp_all add: lowername_def)
  have "construct Gate (PyInt 0) None [] = Inl ValueError"
    using construct_requires_lowername [of Gate "PyInt 0" "[]" None] l(1) by blast
  moreover have "construct OneQubitGate (PySlice PyNone PyNone PyNone) None [] = Inl ValueError"
    using construct_requires_lowername [of OneQubitGate "PySlice PyNone PyNone PyNone" "[]" None]
      l(2) by blast
  moreover have "\<exists>g. construct XGate (PyInt 0) None [] = Inr g \<and> targets g = PyInt 0"
    using construct_requires_lowername [of XGate "PyInt 0" "[]" None] l(3) by blast
  moreover have "\<exists>g. construct RZGate (PyInt 1) (Some (PyOther ''float'')) [] = Inr g \<and>
      targets g = PyInt 1"
    using construct_requires_lowername [of RZGate "PyInt 1" "[]" "Some (PyOther ''float'')"] l(4)
    by blast
  ultimately show ?thesis by blast
qed

text \<open>
  Claim C7. For every targets specifier, constructing an \<^verbatim>\<open>IGate\<close> succeeds, and its
  \<^verbatim>\<open>fallback\<close> returns the empty list of gates and raises nothing.
\<close>

theorem igate_fallback_empty:
  "\<exists>g. construct IGate t None kw = Inr g \<and> targets g = t \<and> fallback g = Inr []"
  by (simp add: construct_def Gate_init_def lowername_def fallback_def)

theorem igate_fallback_empty_witness:
  "\<exists>g. construct IGate (PyTuple [PyInt 0, PySlice (PyInt 2) PyNone PyNone]) None [] = Inr g \<and>
       fallback g = Inr []"
  using igate_fallback_empty [of "PyTuple [PyInt 0, PySlice (PyInt 2) PyNone PyNone]" "[]"]
  by blast

end
